theory Spec2Isabelle
  imports Complex_Main "HOL-Library.Word"
begin

unbundle bit_operations_syntax

section \<open>The IR remote control firmware (main.c, config.h)\<close>

text \<open>
  The firmware drives an IR LED from five keys. Everything it does to the outside world is
  one of five things: switch the carrier on, switch it off, wait some microseconds, wait
  some milliseconds, read the key pins. The model records these in the order the code
  performs them, as a list of events. The pin levels are an input: the \<open>n\<close>-th call of
  \<open>KEY_read\<close> sees the levels \<open>env n\<close> (a level is \<open>True\<close> when the pin is high; the keys
  are active low).
\<close>

subsection \<open>Pins, events and the machine state\<close>

datatype pin = PA2 | PC1 | PC2 | PC4 | PD5 | PD6

definition PIN_KEY1 :: pin where "PIN_KEY1 = PC2"
definition PIN_KEY2 :: pin where "PIN_KEY2 = PC4"
definition PIN_KEY3 :: pin where "PIN_KEY3 = PD5"
definition PIN_KEY4 :: pin where "PIN_KEY4 = PD6"
definition PIN_KEY5 :: pin where "PIN_KEY5 = PC1"
definition PIN_LED :: pin where "PIN_LED = PA2"

type_synonym pins = "pin \<Rightarrow> bool"
type_synonym env = "nat \<Rightarrow> pins"

datatype event =
    Carrier_on
  | Carrier_off
  | Wait_us nat
  | Wait_ms nat
  | Key_polled "8 word"

text \<open>
  \<open>trace\<close> is what has been done so far, \<open>polls\<close> counts the calls of \<open>KEY_read\<close>,
  \<open>RC5_toggle\<close> is the global variable of that name, and the two timer registers are the
  ones \<open>PWM_set\<close> writes.
\<close>

record state =
  trace :: "event list"
  polls :: nat
  RC5_toggle :: "8 word"
  TIM1_ATRLR :: int
  TIM1_CH2CVR :: int

definition emit :: "event list \<Rightarrow> state \<Rightarrow> state" where
  "emit w s = s\<lparr>trace := trace s @ w\<rparr>"

text \<open>The events a call added: the trace after it, without the trace before it.\<close>

definition emitted :: "state \<Rightarrow> state \<Rightarrow> event list" where
  "emitted s s' = drop (length (trace s)) (trace s')"

subsection \<open>Carrier, delays and keys\<close>

text \<open>
  \<open>IR_on()\<close> is \<open>PIN_alternate(PIN_LED)\<close> (the pin outputs the PWM), \<open>IR_off()\<close> is
  \<open>PIN_output(PIN_LED)\<close>. \<open>DLY_us\<close> and \<open>DLY_ms\<close> come from system.h and block for the
  requested time; the model records the request.
\<close>

definition IR_on :: "state \<Rightarrow> state" where
  "IR_on s = emit [Carrier_on] s"

definition IR_off :: "state \<Rightarrow> state" where
  "IR_off s = emit [Carrier_off] s"

definition DLY_us :: "nat \<Rightarrow> state \<Rightarrow> state" where
  "DLY_us n s = emit [Wait_us n] s"

definition DLY_ms :: "nat \<Rightarrow> state \<Rightarrow> state" where
  "DLY_ms n s = emit [Wait_ms n] s"

text \<open>\<open>F_CPU\<close> is set by the build flags: \<open>-D F_CPU=1500000\<close>.\<close>

definition F_CPU :: int where "F_CPU = 1500000"

text \<open>
  \<open>PWM_set(freq)\<close> writes the reload and the compare register, then requests an update
  (\<open>TIM1->SWEVGR = TIM_UG\<close>), which makes the two values take effect; the model keeps the
  two values.
\<close>

definition PWM_set :: "int \<Rightarrow> state \<Rightarrow> state" where
  "PWM_set freq s =
     s\<lparr>TIM1_ATRLR := F_CPU div freq - 1, TIM1_CH2CVR := F_CPU div freq div 4 + 1\<rparr>"

definition PIN_read :: "pins \<Rightarrow> pin \<Rightarrow> bool" where
  "PIN_read p x = p x"

text \<open>
  The value \<open>KEY_read\<close> returns for given pin levels: the number of the first key that is
  low, 0 when none is. The five reads of one call see the same levels.
\<close>

definition KEY_value :: "pins \<Rightarrow> 8 word" where
  "KEY_value p =
     (if \<not> PIN_read p PIN_KEY1 then 1
      else if \<not> PIN_read p PIN_KEY2 then 2
      else if \<not> PIN_read p PIN_KEY3 then 3
      else if \<not> PIN_read p PIN_KEY4 then 4
      else if \<not> PIN_read p PIN_KEY5 then 5
      else 0)"

definition KEY_read :: "env \<Rightarrow> state \<Rightarrow> 8 word \<times> state" where
  "KEY_read env s =
     (let k = KEY_value (env (polls s))
      in (k, s\<lparr>trace := trace s @ [Key_polled k], polls := Suc (polls s)\<rparr>))"

text \<open>
  The four encoders end in a loop whose condition is \<open>KEY_read()\<close>. It runs for as long as
  some key is read, which may be forever, so it is a partial function: \<open>None\<close> is a loop
  that never ends. \<open>while(KEY_read()) body\<close>:
\<close>

partial_function (option)
  while_KEY_read :: "env \<Rightarrow> (state \<Rightarrow> state) \<Rightarrow> state \<Rightarrow> state option"
where
  "while_KEY_read env body s =
     (case KEY_read env s of
        (k, s1) \<Rightarrow> if k \<noteq> 0 then while_KEY_read env body (body s1) else Some s1)"

declare while_KEY_read.simps [code]

text \<open>\<open>do body while(KEY_read())\<close>: the body once, then the loop above.\<close>

definition do_while_KEY_read :: "env \<Rightarrow> (state \<Rightarrow> state) \<Rightarrow> state \<Rightarrow> state option" where
  "do_while_KEY_read env body s = while_KEY_read env body (body s)"

subsection \<open>NEC\<close>

definition NEC_FREQ :: int where "NEC_FREQ = 38000"

definition NEC_startPulse :: "state \<Rightarrow> state" where
  "NEC_startPulse s =
     (let s = IR_on s; s = DLY_us 9000 s; s = IR_off s; s = DLY_us 4500 s in s)"

definition NEC_repeatPulse :: "state \<Rightarrow> state" where
  "NEC_repeatPulse s =
     (let s = IR_on s; s = DLY_us 9000 s; s = IR_off s; s = DLY_us 2250 s in s)"

definition NEC_normalPulse :: "state \<Rightarrow> state" where
  "NEC_normalPulse s =
     (let s = IR_on s; s = DLY_us 552 s; s = IR_off s; s = DLY_us 543 s in s)"

definition NEC_bit1Pause :: "state \<Rightarrow> state" where
  "NEC_bit1Pause s = DLY_us 1125 s"

definition NEC_repeatCode :: "state \<Rightarrow> state" where
  "NEC_repeatCode s =
     (let s = DLY_ms 40 s; s = NEC_repeatPulse s; s = NEC_normalPulse s; s = DLY_ms 56 s
      in s)"

text \<open>
  \<open>for(uint8_t i=8; i; i--, value>>=1)\<close>: the loop of \<open>NEC_sendByte\<close>, from a given
  counter \<open>i\<close>.
\<close>

function NEC_sendByte_loop :: "8 word \<Rightarrow> 8 word \<Rightarrow> state \<Rightarrow> state" where
  "NEC_sendByte_loop i val s =
     (if i \<noteq> 0 then
        (let s = NEC_normalPulse s;
             s = (if val AND 1 \<noteq> 0 then NEC_bit1Pause s else s)
         in NEC_sendByte_loop (i - 1) (drop_bit 1 val) s)
      else s)"
  by pat_completeness auto
termination
  by (relation "measure (\<lambda>(i, val, s). unat i)") (auto simp: measure_unat)

declare NEC_sendByte_loop.simps [simp del]

definition NEC_sendByte :: "8 word \<Rightarrow> state \<Rightarrow> state" where
  "NEC_sendByte val s = NEC_sendByte_loop 8 val s"

text \<open>
  \<open>addr\<close> is a \<open>uint16_t\<close> and \<open>cmd\<close> a \<open>uint8_t\<close>. In \<open>~addr\<close>, \<open>~cmd\<close> and
  \<open>addr >> 8\<close> the operand is promoted to a 32-bit \<open>int\<close>, and the argument of
  \<open>NEC_sendByte\<close> keeps the low eight bits of the result.
\<close>

definition NEC_sendCode :: "env \<Rightarrow> 16 word \<Rightarrow> 8 word \<Rightarrow> state \<Rightarrow> state option" where
  "NEC_sendCode env addr cmd s =
     (let s = PWM_set NEC_FREQ s;
          s = NEC_startPulse s;
          s = (if addr > 0xff then
                 (let s = NEC_sendByte (ucast addr) s;
                      s = NEC_sendByte (ucast (drop_bit 8 (ucast addr :: 32 word))) s
                  in s)
               else
                 (let s = NEC_sendByte (ucast addr) s;
                      s = NEC_sendByte (ucast (NOT (ucast addr :: 32 word))) s
                  in s));
          s = NEC_sendByte cmd s;
          s = NEC_sendByte (ucast (NOT (ucast cmd :: 32 word))) s;
          s = NEC_normalPulse s
      in while_KEY_read env NEC_repeatCode s)"

subsection \<open>Samsung\<close>

definition SAM_startPulse :: "state \<Rightarrow> state" where
  "SAM_startPulse s =
     (let s = IR_on s; s = DLY_us 4500 s; s = IR_off s; s = DLY_us 4500 s in s)"

definition SAM_repeatPause :: "state \<Rightarrow> state" where
  "SAM_repeatPause s = DLY_ms 44 s"

definition SAM_sendCode :: "env \<Rightarrow> 8 word \<Rightarrow> 8 word \<Rightarrow> state \<Rightarrow> state option" where
  "SAM_sendCode env addr cmd s =
     (let s = PWM_set NEC_FREQ s
      in do_while_KEY_read env
           (\<lambda>s. let s = SAM_startPulse s;
                     s = NEC_sendByte addr s;
                     s = NEC_sendByte addr s;
                     s = NEC_sendByte cmd s;
                     s = NEC_sendByte (ucast (NOT (ucast cmd :: 32 word))) s;
                     s = NEC_normalPulse s;
                     s = SAM_repeatPause s
                 in s)
           s)"

subsection \<open>RC-5\<close>

definition RC5_FREQ :: int where "RC5_FREQ = 36000"

definition RC5_bit0Pulse :: "state \<Rightarrow> state" where
  "RC5_bit0Pulse s =
     (let s = IR_on s; s = DLY_us 880 s; s = IR_off s; s = DLY_us 871 s in s)"

definition RC5_bit1Pulse :: "state \<Rightarrow> state" where
  "RC5_bit1Pulse s =
     (let s = IR_off s; s = DLY_us 880 s; s = IR_on s; s = DLY_us 871 s in s)"

definition RC5_repeatPause :: "state \<Rightarrow> state" where
  "RC5_repeatPause s = DLY_ms 89 s"

definition RC5_startBit :: "16 word" where "RC5_startBit = 0x2000"
definition RC5_cmdBit7 :: "16 word" where "RC5_cmdBit7 = 0x1000"
definition RC5_toggleBit :: "16 word" where "RC5_toggleBit = 0x0800"

text \<open>
  The block "Prepare the message" of \<open>RC5_sendCode\<close>, as a function of the two
  parameters and of the value of \<open>RC5_toggle\<close>. \<open>addr << 6\<close> and \<open>~cmd\<close> are computed on
  the promoted 32-bit operands.
\<close>

definition RC5_message :: "8 word \<Rightarrow> 8 word \<Rightarrow> 8 word \<Rightarrow> 16 word" where
  "RC5_message addr cmd toggle =
     (let message = (ucast (push_bit 6 (ucast addr :: 32 word)) :: 16 word);
          message = message OR ucast (cmd AND 0x3f);
          message = (if NOT (ucast cmd :: 32 word) AND 0x40 \<noteq> 0
                     then message OR RC5_cmdBit7 else message);
          message = message OR RC5_startBit;
          message = (if toggle \<noteq> 0 then message OR RC5_toggleBit else message)
      in message)"

text \<open>\<open>for(uint8_t i=14; i; i--, bitmask>>=1)\<close>, from a given counter and bitmask.\<close>

function RC5_sendBits_loop :: "8 word \<Rightarrow> 16 word \<Rightarrow> 16 word \<Rightarrow> state \<Rightarrow> state" where
  "RC5_sendBits_loop i message bitmask s =
     (if i \<noteq> 0 then
        (let s = (if message AND bitmask \<noteq> 0 then RC5_bit1Pulse s else RC5_bit0Pulse s)
         in RC5_sendBits_loop (i - 1) message (drop_bit 1 bitmask) s)
      else s)"
  by pat_completeness auto
termination
  by (relation "measure (\<lambda>(i, message, bitmask, s). unat i)") (auto simp: measure_unat)

declare RC5_sendBits_loop.simps [simp del]

text \<open>One pass of the \<open>do\<close> loop of \<open>RC5_sendCode\<close>.\<close>

definition RC5_telegram :: "16 word \<Rightarrow> state \<Rightarrow> state" where
  "RC5_telegram message s =
     (let bitmask = RC5_startBit;
          s = RC5_sendBits_loop 14 message bitmask s;
          s = IR_off s;
          s = RC5_repeatPause s
      in s)"

definition RC5_sendCode :: "env \<Rightarrow> 8 word \<Rightarrow> 8 word \<Rightarrow> state \<Rightarrow> state option" where
  "RC5_sendCode env addr cmd s =
     (let s = PWM_set RC5_FREQ s;
          message = RC5_message addr cmd (RC5_toggle s)
      in case do_while_KEY_read env (RC5_telegram message) s of
           None \<Rightarrow> None
         | Some s \<Rightarrow> Some (s\<lparr>RC5_toggle := RC5_toggle s XOR 1\<rparr>))"

subsection \<open>Sony SIRC\<close>

definition SON_FREQ :: int where "SON_FREQ = 40000"

definition SON_startPulse :: "state \<Rightarrow> state" where
  "SON_startPulse s =
     (let s = IR_on s; s = DLY_us 2400 s; s = IR_off s; s = DLY_us 579 s in s)"

definition SON_bit0Pulse :: "state \<Rightarrow> state" where
  "SON_bit0Pulse s =
     (let s = IR_on s; s = DLY_us 587 s; s = IR_off s; s = DLY_us 579 s in s)"

definition SON_bit1Pulse :: "state \<Rightarrow> state" where
  "SON_bit1Pulse s =
     (let s = IR_on s; s = DLY_us 1192 s; s = IR_off s; s = DLY_us 579 s in s)"

definition SON_repeatPause :: "state \<Rightarrow> state" where
  "SON_repeatPause s = DLY_ms 27 s"

text \<open>
  \<open>do { ... } while(--number)\<close> on a \<open>uint8_t\<close>: the counter is decremented, with
  wrap-around, before it is tested.
\<close>

function SON_sendByte :: "8 word \<Rightarrow> 8 word \<Rightarrow> state \<Rightarrow> state" where
  "SON_sendByte val number s =
     (let s = (if val AND 1 \<noteq> 0 then SON_bit1Pulse s else SON_bit0Pulse s);
          val = drop_bit 1 val;
          number = number - 1
      in if number \<noteq> 0 then SON_sendByte val number s else s)"
  by pat_completeness auto
termination
proof (relation "measure (\<lambda>(val, number, s). unat (number - 1))")
  fix val number xa xb :: "8 word" and s x :: state
  assume "xb = number - 1" and "xb \<noteq> 0"
  from \<open>xb \<noteq> 0\<close> have "unat (xb - 1) < unat xb"
    by (rule measure_unat)
  then show "((xa, xb, x), (val, number, s)) \<in> measure (\<lambda>(val, number, s). unat (number - 1))"
    using \<open>xb = number - 1\<close> by simp
qed simp

declare SON_sendByte.simps [simp del]

text \<open>One pass of the \<open>do\<close> loop of \<open>SON_sendCode\<close>.\<close>

definition SON_telegram :: "16 word \<Rightarrow> 8 word \<Rightarrow> 8 word \<Rightarrow> state \<Rightarrow> state" where
  "SON_telegram addr cmd bits s =
     (let s = SON_startPulse s;
          s = SON_sendByte cmd 7 s;
          s = (if bits = 12 then SON_sendByte (ucast addr) 5 s
               else if bits = 15 then SON_sendByte (ucast addr) 8 s
               else if bits = 20 then
                 (let s = SON_sendByte (ucast addr) 8 s;
                      s = SON_sendByte (ucast (drop_bit 8 (ucast addr :: 32 word))) 5 s
                  in s)
               else s);
          s = SON_repeatPause s
      in s)"

definition SON_sendCode :: "env \<Rightarrow> 16 word \<Rightarrow> 8 word \<Rightarrow> 8 word \<Rightarrow> state \<Rightarrow> state option" where
  "SON_sendCode env addr cmd bits s =
     (let s = PWM_set SON_FREQ s
      in do_while_KEY_read env (SON_telegram addr cmd bits) s)"

subsection \<open>The main loop\<close>

text \<open>The commands config.h assigns to the keys.\<close>

definition KEY1 :: "env \<Rightarrow> state \<Rightarrow> state option" where
  "KEY1 env s = NEC_sendCode env 0x04 0x08 s"

definition KEY2 :: "env \<Rightarrow> state \<Rightarrow> state option" where
  "KEY2 env s = RC5_sendCode env 0x00 0x0B s"

definition KEY3 :: "env \<Rightarrow> state \<Rightarrow> state option" where
  "KEY3 env s = SON_sendCode env 0x01 0x15 12 s"

definition KEY4 :: "env \<Rightarrow> state \<Rightarrow> state option" where
  "KEY4 env s = SAM_sendCode env 0x07 0x02 s"

definition KEY5 :: "env \<Rightarrow> state \<Rightarrow> state option" where
  "KEY5 env s = Some (DLY_ms 10 s)"

text \<open>
  One pass of \<open>while(1)\<close> in \<open>main\<close>, from the moment an event has woken the MCU
  (\<open>STDBY_WFE_now()\<close> has returned): debounce, read the key, act on it.
\<close>

definition main_loop_body :: "env \<Rightarrow> state \<Rightarrow> state option" where
  "main_loop_body env s =
     (let s = DLY_ms 1 s
      in case KEY_read env s of
           (key, s) \<Rightarrow>
             if key = 1 then KEY1 env s
             else if key = 2 then KEY2 env s
             else if key = 3 then KEY3 env s
             else if key = 4 then KEY4 env s
             else if key = 5 then KEY5 env s
             else Some s)"

text \<open>The state after reset: nothing done yet, \<open>RC5_toggle = 0\<close>.\<close>

definition reset_state :: state where
  "reset_state = \<lparr>trace = [], polls = 0, RC5_toggle = 0, TIM1_ATRLR = 0, TIM1_CH2CVR = 0\<rparr>"

section \<open>Vocabulary of the theorems\<close>

subsection \<open>Key histories\<close>

text \<open>
  \<open>held_for env p n\<close>: from the \<open>p\<close>-th call of \<open>KEY_read\<close> on, \<open>n\<close> calls in a row
  return a key and the next one returns 0. \<open>polled env p n\<close> are the \<open>n\<close> values returned.
\<close>

definition held_for :: "env \<Rightarrow> nat \<Rightarrow> nat \<Rightarrow> bool" where
  "held_for env p n \<longleftrightarrow>
     list_all (\<lambda>j. KEY_value (env (p + j)) \<noteq> 0) [0..<n] \<and> KEY_value (env (p + n)) = 0"

definition polled :: "env \<Rightarrow> nat \<Rightarrow> nat \<Rightarrow> 8 word list" where
  "polled env p n = map (\<lambda>j. KEY_value (env (p + j))) [0..<n]"

text \<open>The five key pins.\<close>

definition key_pins :: "pin set" where
  "key_pins = {PIN_KEY1, PIN_KEY2, PIN_KEY3, PIN_KEY4, PIN_KEY5}"

text \<open>Pin levels for examples: no key down, one key down, a key held for \<open>n\<close> reads.\<close>

definition no_key :: pins where
  "no_key = (\<lambda>x. True)"

definition key_down :: "pin \<Rightarrow> pins" where
  "key_down k = (\<lambda>x. x \<noteq> k)"

definition press :: "pin \<Rightarrow> nat \<Rightarrow> env" where
  "press k n = (\<lambda>j. if j < n then key_down k else no_key)"

text \<open>
  Key 1 is down at the first read, key 2 (and not key 1) at the second, none afterwards.
\<close>

definition key1_then_key2 :: env where
  "key1_then_key2 =
     (\<lambda>j. if j = 0 then key_down PIN_KEY1 else if j = 1 then key_down PIN_KEY2 else no_key)"

subsection \<open>Event sequences\<close>

text \<open>
  What an encoder adds to the trace: a first frame, then for every read that returned a
  key that read and a repeat frame, then the read that returned 0.
\<close>

definition frames :: "event list \<Rightarrow> event list \<Rightarrow> 8 word list \<Rightarrow> event list" where
  "frames first rep ks = first @ concat (map (\<lambda>k. Key_polled k # rep) ks) @ [Key_polled 0]"

text \<open>The events that are reads of the keys.\<close>

fun is_poll :: "event \<Rightarrow> bool" where
  "is_poll (Key_polled k) = True"
| "is_poll e = False"

text \<open>The pulse-distance bit of NEC and Samsung, and a byte, least significant bit first.\<close>

definition NEC_mark :: "event list" where
  "NEC_mark = [Carrier_on, Wait_us 552, Carrier_off, Wait_us 543]"

definition NEC_bit_wave :: "bool \<Rightarrow> event list" where
  "NEC_bit_wave b = NEC_mark @ (if b then [Wait_us 1125] else [])"

definition NEC_byte_wave :: "8 word \<Rightarrow> event list" where
  "NEC_byte_wave v = concat (map (\<lambda>j. NEC_bit_wave (bit v j)) [0..<8])"

definition NEC_repeat_wave :: "event list" where
  "NEC_repeat_wave =
     [Wait_ms 40, Carrier_on, Wait_us 9000, Carrier_off, Wait_us 2250] @ NEC_mark @ [Wait_ms 56]"

text \<open>The bi-phase bit of RC-5 and the pulse-length bit of SIRC.\<close>

definition RC5_bit_wave :: "bool \<Rightarrow> event list" where
  "RC5_bit_wave b =
     (if b then [Carrier_off, Wait_us 880, Carrier_on, Wait_us 871]
      else [Carrier_on, Wait_us 880, Carrier_off, Wait_us 871])"

definition SON_bit_wave :: "bool \<Rightarrow> event list" where
  "SON_bit_wave b = [Carrier_on, Wait_us (if b then 1192 else 587), Carrier_off, Wait_us 579]"

text \<open>
  The telegrams, as event sequences. NEC: start frame, four bytes, end mark. The four bytes
  are address, inverted address, command, inverted command for an address up to \<open>0xFF\<close>,
  and low address byte, high address byte, command, inverted command above.
\<close>

definition NEC_bytes :: "16 word \<Rightarrow> 8 word \<Rightarrow> 8 word list" where
  "NEC_bytes addr cmd =
     (if addr \<le> 0xFF then [ucast addr, NOT (ucast addr), cmd, NOT cmd]
      else [ucast addr, ucast (drop_bit 8 addr), cmd, NOT cmd])"

definition NEC_telegram_wave :: "16 word \<Rightarrow> 8 word \<Rightarrow> event list" where
  "NEC_telegram_wave addr cmd =
     [Carrier_on, Wait_us 9000, Carrier_off, Wait_us 4500]
     @ concat (map NEC_byte_wave (NEC_bytes addr cmd)) @ NEC_mark"

text \<open>Samsung: start frame, address twice, command, inverted command, end mark, pause.\<close>

definition SAM_telegram_wave :: "8 word \<Rightarrow> 8 word \<Rightarrow> event list" where
  "SAM_telegram_wave addr cmd =
     [Carrier_on, Wait_us 4500, Carrier_off, Wait_us 4500]
     @ concat (map NEC_byte_wave [addr, addr, cmd, NOT cmd]) @ NEC_mark @ [Wait_ms 44]"

text \<open>RC-5: the bits 13 down to 0 of the message, carrier off, pause.\<close>

definition RC5_telegram_wave :: "16 word \<Rightarrow> event list" where
  "RC5_telegram_wave message =
     concat (map (\<lambda>j. RC5_bit_wave (bit message j)) (rev [0..<14]))
     @ [Carrier_off, Wait_ms 89]"

text \<open>
  SIRC: start frame, seven command bits, the address bits of the variant, pause; all bits
  least significant first.
\<close>

definition SON_data_bits :: "16 word \<Rightarrow> 8 word \<Rightarrow> 8 word \<Rightarrow> bool list" where
  "SON_data_bits addr cmd bits =
     map (bit cmd) [0..<7]
     @ (if bits = 12 then map (bit addr) [0..<5]
        else if bits = 15 then map (bit addr) [0..<8]
        else if bits = 20 then map (bit addr) [0..<13]
        else [])"

definition SON_telegram_wave :: "16 word \<Rightarrow> 8 word \<Rightarrow> 8 word \<Rightarrow> event list" where
  "SON_telegram_wave addr cmd bits =
     [Carrier_on, Wait_us 2400, Carrier_off, Wait_us 579]
     @ concat (map SON_bit_wave (SON_data_bits addr cmd bits)) @ [Wait_ms 27]"

subsection \<open>Waveforms\<close>

text \<open>
  The waveform of an event sequence: the requested waits in microseconds, each with the
  state of the carrier during it. Reading the keys takes no modelled time. The first
  argument is the state of the carrier at the start.
\<close>

fun waveform :: "bool \<Rightarrow> event list \<Rightarrow> (bool \<times> nat) list" where
  "waveform c [] = []"
| "waveform c (Carrier_on # es) = waveform True es"
| "waveform c (Carrier_off # es) = waveform False es"
| "waveform c (Wait_us n # es) = (c, n) # waveform c es"
| "waveform c (Wait_ms n # es) = (c, 1000 * n) # waveform c es"
| "waveform c (Key_polled k # es) = waveform c es"

text \<open>The time with the carrier on, and with the carrier off, in microseconds.\<close>

definition burst_us :: "event list \<Rightarrow> nat" where
  "burst_us w = sum_list (map snd (filter fst (waveform False w)))"

definition space_us :: "event list \<Rightarrow> nat" where
  "space_us w = sum_list (map snd (filter (\<lambda>x. \<not> fst x) (waveform False w)))"

text \<open>The number of bursts: how many times the carrier is switched on.\<close>

definition bursts :: "event list \<Rightarrow> nat" where
  "bursts w = length (filter (\<lambda>e. e = Carrier_on) w)"

text \<open>\<open>x\<close> is within \<open>p\<close> percent of \<open>nominal\<close>.\<close>

definition within_percent :: "real \<Rightarrow> real \<Rightarrow> real \<Rightarrow> bool" where
  "within_percent p nominal x \<longleftrightarrow> \<bar>x - nominal\<bar> \<le> p / 100 * nominal"

section \<open>Properties\<close>

subsection \<open>Key histories\<close>

lemma held_for_iff:
  "held_for env p n \<longleftrightarrow>
     (\<forall>j<n. KEY_value (env (p + j)) \<noteq> 0) \<and> KEY_value (env (p + n)) = 0"
  by (auto simp: held_for_def list_all_iff)

subsection \<open>Events of the primitives and of the byte loops\<close>

lemma emit_Nil [simp]: "emit [] s = s"
  by (simp add: emit_def)

lemma emit_emit [simp]: "emit b (emit a s) = emit (a @ b) s"
  by (simp add: emit_def)

lemma NEC_normalPulse_emit: "NEC_normalPulse s = emit NEC_mark s"
  by (simp add: NEC_normalPulse_def NEC_mark_def IR_on_def IR_off_def DLY_us_def)

lemma upt_shift: "[0..<Suc n] = 0 # map Suc [0..<n]"
  by (simp add: upt_conv_Cons map_Suc_upt del: upt_Suc)

lemma and_1_neq_0: "(val AND 1 \<noteq> 0) = bit val 0" for val :: "'a::len word"
  by (simp add: and_one_eq mod_2_eq_odd bit_0 word_eq_iff_unsigned [where ?'a = nat])

lemma NEC_sendByte_loop_upto:
  "unat i = n \<Longrightarrow>
   NEC_sendByte_loop i val s = emit (concat (map (\<lambda>j. NEC_bit_wave (bit val j)) [0..<n])) s"
proof (induction n arbitrary: i val s)
  case 0
  then have "i = 0" by (simp add: unat_eq_0)
  then show ?case
    by (subst NEC_sendByte_loop.simps) simp
next
  case (Suc n)
  from Suc.prems have nz: "i \<noteq> 0"
    by auto
  with Suc.prems have u: "unat (i - 1) = n"
    by (simp add: unat_minus_one)
  show ?case
    apply (subst NEC_sendByte_loop.simps)
    apply (simp only: upt_shift)
    apply (simp add: nz Let_def Suc.IH [OF u] and_1_neq_0 NEC_normalPulse_emit
        NEC_bit1Pause_def DLY_us_def NEC_bit_wave_def bit_drop_bit_eq o_def)
    done
qed

lemma NEC_sendByte_emit: "NEC_sendByte val s = emit (NEC_byte_wave val) s"
  by (simp add: NEC_sendByte_def NEC_byte_wave_def NEC_sendByte_loop_upto [where n = 8])

lemma SON_bitPulse_emit:
  "(if b then SON_bit1Pulse s else SON_bit0Pulse s) = emit (SON_bit_wave b) s"
  by (simp add: SON_bit1Pulse_def SON_bit0Pulse_def SON_bit_wave_def IR_on_def IR_off_def
      DLY_us_def)

text \<open>\<open>SON_sendByte\<close> sends one bit more than the decremented counter says.\<close>

lemma SON_sendByte_upto:
  "unat (number - 1) = n \<Longrightarrow>
   SON_sendByte val number s =
     emit (concat (map (\<lambda>j. SON_bit_wave (bit val j)) [0..<Suc n])) s"
proof (induction n arbitrary: number val s)
  case 0
  then have "number - 1 = 0" by (simp add: unat_eq_0)
  then show ?case
    by (subst SON_sendByte.simps) (simp add: Let_def and_1_neq_0 SON_bitPulse_emit)
next
  case (Suc n)
  from Suc.prems have nz: "number - 1 \<noteq> 0"
    by auto
  then have nz': "number \<noteq> 1"
    by simp
  from unat_minus_one [OF nz] Suc.prems have u: "unat (number - 1 - 1) = n"
    by simp
  show ?case
    apply (subst SON_sendByte.simps)
    apply (subst upt_shift)
    apply (simp add: nz' Let_def Suc.IH [OF u] and_1_neq_0 SON_bitPulse_emit
        bit_drop_bit_eq o_def del: upt_Suc)
    done
qed

lemma RC5_bitPulse_emit:
  "(if b then RC5_bit1Pulse s else RC5_bit0Pulse s) = emit (RC5_bit_wave b) s"
  by (simp add: RC5_bit1Pulse_def RC5_bit0Pulse_def RC5_bit_wave_def IR_on_def IR_off_def
      DLY_us_def)

lemma RC5_sendBits_loop_upto:
  "unat i = n \<Longrightarrow>
   RC5_sendBits_loop i message bitmask s =
     emit (concat (map (\<lambda>j. RC5_bit_wave (message AND drop_bit j bitmask \<noteq> 0)) [0..<n])) s"
proof (induction n arbitrary: i bitmask s)
  case 0
  then have "i = 0" by (simp add: unat_eq_0)
  then show ?case
    by (subst RC5_sendBits_loop.simps) simp
next
  case (Suc n)
  from Suc.prems have nz: "i \<noteq> 0"
    by auto
  with Suc.prems have u: "unat (i - 1) = n"
    by (simp add: unat_minus_one)
  show ?case
    apply (subst RC5_sendBits_loop.simps)
    apply (subst upt_shift)
    apply (simp add: nz Let_def Suc.IH [OF u] RC5_bitPulse_emit o_def del: upt_Suc)
    done
qed

lemma mask_bit: "(w AND push_bit k 1 \<noteq> 0) = bit w k" for w :: "'a::len word"
  by (simp add: bit_iff_and_push_bit_not_eq_0)

text \<open>The integer promotions do not change the byte that is sent.\<close>

lemma ucast_not_ucast8: "(ucast (NOT (ucast c :: 32 word)) :: 8 word) = NOT c" for c :: "8 word"
  by (rule bit_word_eqI) (auto simp: bit_simps)

lemma ucast_not_ucast16:
  "(ucast (NOT (ucast a :: 32 word)) :: 8 word) = NOT (ucast a)" for a :: "16 word"
  by (rule bit_word_eqI) (auto simp: bit_simps)

lemma ucast_drop_ucast16:
  "(ucast (drop_bit 8 (ucast a :: 32 word)) :: 8 word) = ucast (drop_bit 8 a)" for a :: "16 word"
  by (rule bit_word_eqI) (auto simp: bit_simps)

subsection \<open>The loop on the keys\<close>

lemma polled_Suc: "polled env p (Suc n) = KEY_value (env p) # polled env (Suc p) n"
  by (simp add: polled_def upt_shift o_def del: upt_Suc)

lemma held_for_Suc:
  "held_for env p (Suc n) \<longleftrightarrow> KEY_value (env p) \<noteq> 0 \<and> held_for env (Suc p) n"
  by (auto simp: held_for_iff less_Suc_eq_0_disj)

lemma while_KEY_read_emit:
  "held_for env (polls s) n \<Longrightarrow>
   while_KEY_read env (emit w) s =
     Some (s\<lparr>trace := trace s @ concat (map (\<lambda>k. Key_polled k # w) (polled env (polls s) n))
                       @ [Key_polled 0],
            polls := polls s + n + 1\<rparr>)"
proof (induction n arbitrary: s)
  case 0
  then show ?case
    by (subst while_KEY_read.simps) (simp add: held_for_iff KEY_read_def polled_def)
next
  case (Suc n)
  let ?s1 = "emit w (s\<lparr>trace := trace s @ [Key_polled (KEY_value (env (polls s)))],
                        polls := Suc (polls s)\<rparr>)"
  from Suc.prems have k: "KEY_value (env (polls s)) \<noteq> 0" and h: "held_for env (polls ?s1) n"
    by (simp_all add: held_for_Suc emit_def)
  show ?case
    apply (subst while_KEY_read.simps)
    apply (simp add: KEY_read_def Let_def k Suc.IH [OF h])
    apply (simp add: emit_def polled_Suc)
    done
qed

text \<open>A loop that returns has read 0 at some point.\<close>

lemma while_KEY_read_Some_released:
  assumes "while_KEY_read env body s = Some s'" and "\<And>t. polls (body t) = polls t"
  shows "\<exists>j. KEY_value (env (polls s + j)) = 0"
proof -
  have "(\<forall>t. polls (body t) = polls t) \<longrightarrow> (\<exists>j. KEY_value (env (polls s + j)) = 0)"
  proof (rule while_KEY_read.raw_induct
      [where P = "\<lambda>env body s y. (\<forall>t. polls (body t) = polls t) \<longrightarrow>
                     (\<exists>j. KEY_value (env (polls s + j)) = 0)", OF _ assms(1)])
    fix f :: "env \<Rightarrow> (state \<Rightarrow> state) \<Rightarrow> state \<Rightarrow> state option"
      and env body s y
    assume IH: "\<And>env body s y. f env body s = Some y \<Longrightarrow>
        (\<forall>t. polls (body t) = polls t) \<longrightarrow> (\<exists>j. KEY_value (env (polls s + j)) = 0)"
      and step: "(case KEY_read env s of
                   (k, s1) \<Rightarrow> if k \<noteq> 0 then f env body (body s1) else Some s1) = Some y"
    show "(\<forall>t. polls (body t) = polls t) \<longrightarrow> (\<exists>j. KEY_value (env (polls s + j)) = 0)"
    proof
      assume keep: "\<forall>t. polls (body t) = polls t"
      show "\<exists>j. KEY_value (env (polls s + j)) = 0"
      proof (cases "KEY_value (env (polls s)) = 0")
        case True
        then show ?thesis by (intro exI [of _ 0]) simp
      next
        case False
        with step have "f env body (body (snd (KEY_read env s))) = Some y"
          by (simp add: KEY_read_def Let_def)
        from IH [OF this] keep obtain j
          where "KEY_value (env (polls (body (snd (KEY_read env s))) + j)) = 0" by blast
        then have "KEY_value (env (polls s + Suc j)) = 0"
          by (simp add: keep KEY_read_def Let_def)
        then show ?thesis by blast
      qed
    qed
  qed
  with assms(2) show ?thesis by blast
qed

lemma upt_0_5: "[0..<5] = [0, 1, 2, 3, 4 :: nat]"
  by code_simp

lemma polls_emit [simp]: "polls (emit w s) = polls s"
  by (simp add: emit_def)

lemma trace_emit [simp]: "trace (emit w s) = trace s @ w"
  by (simp add: emit_def)

lemma RC5_toggle_emit [simp]: "RC5_toggle (emit w s) = RC5_toggle s"
  by (simp add: emit_def)

lemma PWM_set_sel [simp]:
  "polls (PWM_set f s) = polls s" "trace (PWM_set f s) = trace s"
  "RC5_toggle (PWM_set f s) = RC5_toggle s"
  by (simp_all add: PWM_set_def)

lemma while_after_emit:
  "held_for env (polls s) n \<Longrightarrow>
   while_KEY_read env (emit r) (emit f s) =
     Some (s\<lparr>trace := trace s @ frames f r (polled env (polls s) n), polls := polls s + n + 1\<rparr>)"
  using while_KEY_read_emit [of env "emit f s" n r]
  by (simp add: frames_def emit_def)

lemma do_while_emit:
  "held_for env (polls s) n \<Longrightarrow>
   do_while_KEY_read env (emit f) s =
     Some (s\<lparr>trace := trace s @ frames f f (polled env (polls s) n), polls := polls s + n + 1\<rparr>)"
  by (simp add: do_while_KEY_read_def while_after_emit)

lemma while_KEY_read_None:
  assumes "\<forall>j. KEY_value (env (polls s + j)) \<noteq> 0"
  shows "while_KEY_read env (emit r) s = None"
proof (cases "while_KEY_read env (emit r) s")
  case None
  then show ?thesis .
next
  case (Some s')
  from while_KEY_read_Some_released [OF Some] assms show ?thesis
    by simp
qed

lemma do_while_None:
  "\<forall>j. KEY_value (env (polls s + j)) \<noteq> 0 \<Longrightarrow> do_while_KEY_read env (emit f) s = None"
  by (simp add: do_while_KEY_read_def while_KEY_read_None)

subsection \<open>The encoders as loops over event sequences\<close>

lemma NEC_repeatCode_emit: "NEC_repeatCode = emit NEC_repeat_wave"
  by (rule ext)
    (simp add: NEC_repeatCode_def NEC_repeatPulse_def NEC_normalPulse_emit NEC_repeat_wave_def
      IR_on_def IR_off_def DLY_us_def DLY_ms_def)

lemma NEC_sendCode_loop:
  "NEC_sendCode env addr cmd s =
     while_KEY_read env (emit NEC_repeat_wave)
       (emit (NEC_telegram_wave addr cmd) (PWM_set NEC_FREQ s))"
proof (cases "addr > 0xff")
  case True
  then have "\<not> addr \<le> 0xff" by simp
  with True show ?thesis
    by (simp add: NEC_sendCode_def NEC_startPulse_def NEC_sendByte_emit NEC_normalPulse_emit
        NEC_repeatCode_emit NEC_telegram_wave_def NEC_bytes_def IR_on_def IR_off_def DLY_us_def
        ucast_not_ucast8 ucast_drop_ucast16 Let_def)
next
  case False
  then have "addr \<le> 0xff" by simp
  with False show ?thesis
    by (simp add: NEC_sendCode_def NEC_startPulse_def NEC_sendByte_emit NEC_normalPulse_emit
        NEC_repeatCode_emit NEC_telegram_wave_def NEC_bytes_def IR_on_def IR_off_def DLY_us_def
        ucast_not_ucast8 ucast_not_ucast16 Let_def)
qed

lemma SAM_sendCode_loop:
  "SAM_sendCode env addr cmd s =
     do_while_KEY_read env (emit (SAM_telegram_wave addr cmd)) (PWM_set NEC_FREQ s)"
  by (simp add: SAM_sendCode_def SAM_startPulse_def SAM_repeatPause_def NEC_sendByte_emit
      NEC_normalPulse_emit SAM_telegram_wave_def IR_on_def IR_off_def DLY_us_def DLY_ms_def
      ucast_not_ucast8)

lemma upt_0_14: "[0..<14] = [0, 1, 2, 3, 4, 5, 6, 7, 8, 9, 10, 11, 12, 13 :: nat]"
  by code_simp

lemma RC5_telegram_emit: "RC5_telegram message = emit (RC5_telegram_wave message)"
  apply (rule ext)
  apply (simp add: RC5_telegram_def RC5_telegram_wave_def RC5_sendBits_loop_upto [where n = 14]
      IR_off_def RC5_repeatPause_def DLY_ms_def RC5_startBit_def)
  apply (simp add: mask_bit [symmetric] upt_0_14)
  done

lemma RC5_sendCode_loop:
  "RC5_sendCode env addr cmd s =
     (case do_while_KEY_read env (emit (RC5_telegram_wave (RC5_message addr cmd (RC5_toggle s))))
             (PWM_set RC5_FREQ s) of
        None \<Rightarrow> None
      | Some s \<Rightarrow> Some (s\<lparr>RC5_toggle := RC5_toggle s XOR 1\<rparr>))"
  by (simp add: RC5_sendCode_def RC5_telegram_emit Let_def)

lemma upt_0_7: "[0..<7] = [0, 1, 2, 3, 4, 5, 6 :: nat]"
  by code_simp

lemma upt_0_8: "[0..<8] = [0, 1, 2, 3, 4, 5, 6, 7 :: nat]"
  by code_simp

lemma upt_0_13: "[0..<13] = [0, 1, 2, 3, 4, 5, 6, 7, 8, 9, 10, 11, 12 :: nat]"
  by code_simp

lemma SON_telegram_emit:
  "SON_telegram addr cmd bits = emit (SON_telegram_wave addr cmd bits)"
  apply (rule ext)
  apply (simp add: SON_telegram_def SON_telegram_wave_def SON_data_bits_def SON_startPulse_def
      SON_repeatPause_def IR_on_def IR_off_def DLY_us_def DLY_ms_def Let_def
      SON_sendByte_upto [where n = 6] SON_sendByte_upto [where n = 4]
      SON_sendByte_upto [where n = 7] ucast_drop_ucast16 del: upt_Suc)
  apply (simp add: upt_0_7 upt_0_5 upt_0_8 upt_0_13 bit_simps)
  done

lemma SON_sendCode_loop:
  "SON_sendCode env addr cmd bits s =
     do_while_KEY_read env (emit (SON_telegram_wave addr cmd bits)) (PWM_set SON_FREQ s)"
  by (simp add: SON_sendCode_def SON_telegram_emit)

subsection \<open>What the encoders return\<close>

lemma NEC_sendCode_Some:
  "held_for env (polls s) n \<Longrightarrow>
   NEC_sendCode env addr cmd s =
     Some ((PWM_set NEC_FREQ s)
       \<lparr>trace := trace s @ frames (NEC_telegram_wave addr cmd) NEC_repeat_wave
                             (polled env (polls s) n),
        polls := polls s + n + 1\<rparr>)"
  using while_after_emit [of env "PWM_set NEC_FREQ s" n NEC_repeat_wave]
  by (simp add: NEC_sendCode_loop)

lemma SAM_sendCode_Some:
  "held_for env (polls s) n \<Longrightarrow>
   SAM_sendCode env addr cmd s =
     Some ((PWM_set NEC_FREQ s)
       \<lparr>trace := trace s @ frames (SAM_telegram_wave addr cmd) (SAM_telegram_wave addr cmd)
                             (polled env (polls s) n),
        polls := polls s + n + 1\<rparr>)"
  using do_while_emit [of env "PWM_set NEC_FREQ s" n]
  by (simp add: SAM_sendCode_loop)

lemma RC5_sendCode_Some:
  "held_for env (polls s) n \<Longrightarrow>
   RC5_sendCode env addr cmd s =
     Some ((PWM_set RC5_FREQ s)
       \<lparr>trace := trace s @ frames (RC5_telegram_wave (RC5_message addr cmd (RC5_toggle s)))
                             (RC5_telegram_wave (RC5_message addr cmd (RC5_toggle s)))
                             (polled env (polls s) n),
        polls := polls s + n + 1,
        RC5_toggle := RC5_toggle s XOR 1\<rparr>)"
  using do_while_emit [of env "PWM_set RC5_FREQ s" n]
  by (simp add: RC5_sendCode_loop)

lemma SON_sendCode_Some:
  "held_for env (polls s) n \<Longrightarrow>
   SON_sendCode env addr cmd bits s =
     Some ((PWM_set SON_FREQ s)
       \<lparr>trace := trace s @ frames (SON_telegram_wave addr cmd bits)
                             (SON_telegram_wave addr cmd bits) (polled env (polls s) n),
        polls := polls s + n + 1\<rparr>)"
  using do_while_emit [of env "PWM_set SON_FREQ s" n]
  by (simp add: SON_sendCode_loop)

lemma sendCode_None:
  assumes "\<forall>j. KEY_value (env (polls s + j)) \<noteq> 0"
  shows "NEC_sendCode env addr16 cmd s = None"
    and "SAM_sendCode env addr cmd s = None"
    and "RC5_sendCode env addr cmd s = None"
    and "SON_sendCode env addr16 cmd bits s = None"
  using assms
  by (simp_all add: NEC_sendCode_loop SAM_sendCode_loop RC5_sendCode_loop SON_sendCode_loop
      while_KEY_read_None do_while_None)

lemma emitted_append [simp]: "emitted s (s'\<lparr>trace := trace s @ w\<rparr>) = w"
  by (simp add: emitted_def)

lemma emitted_upd [simp]:
  "emitted s (s'\<lparr>polls := p\<rparr>) = emitted s s'"
  "emitted s (s'\<lparr>RC5_toggle := t\<rparr>) = emitted s s'"
  by (simp_all add: emitted_def)

lemma held_for_press:
  "k \<in> {PIN_KEY1, PIN_KEY2, PIN_KEY3, PIN_KEY4, PIN_KEY5} \<Longrightarrow> held_for (press k n) 0 n"
  by (auto simp: held_for_iff press_def KEY_value_def PIN_read_def key_down_def no_key_def)

lemma polled_press:
  "polled (press PIN_KEY1 n) 0 n = replicate n 1"
  by (simp add: list_eq_iff_nth_eq polled_def press_def KEY_value_def PIN_read_def key_down_def)

lemma frames_same: "frames f f ks = concat (map (\<lambda>k. f @ [Key_polled k]) (ks @ [0]))"
  by (induction ks) (simp_all add: frames_def)

lemma polled_press_any: "polled (press k n) 0 n = replicate n (KEY_value (key_down k))"
  by (simp add: list_eq_iff_nth_eq polled_def press_def)

lemma KEY_value_key_down:
  "KEY_value (key_down PIN_KEY1) = 1" "KEY_value (key_down PIN_KEY2) = 2"
  "KEY_value (key_down PIN_KEY3) = 3" "KEY_value (key_down PIN_KEY4) = 4"
  "KEY_value (key_down PIN_KEY5) = 5" "KEY_value no_key = 0"
  by (simp_all add: KEY_value_def key_down_def no_key_def PIN_read_def PIN_KEY1_def PIN_KEY2_def
      PIN_KEY3_def PIN_KEY4_def PIN_KEY5_def)

lemma polls_reset_state: "polls reset_state = 0"
  by (simp add: reset_state_def)

subsection \<open>The RC-5 message\<close>

lemma bit_less_32: "addr < 32 \<Longrightarrow> bit addr j \<Longrightarrow> j < 5" for addr :: "8 word"
proof -
  assume a: "addr < 32" and b: "bit addr j"
  from a have "addr < 2 ^ 5" by simp
  then have "addr AND mask 5 = addr"
    by (rule less_mask_eq)
  with b have "bit (addr AND mask 5) j"
    by (simp only:)
  then show "j < 5"
    by (simp add: bit_simps)
qed

lemma not_cmd_bit6: "(NOT (ucast cmd :: 32 word) AND 0x40 \<noteq> 0) = (\<not> bit cmd 6)"
  for cmd :: "8 word"
proof -
  have "(0x40 :: 32 word) = push_bit 6 1"
    by simp
  then show ?thesis
    by (simp only: mask_bit) (simp add: bit_simps)
qed

lemma RC5_consts_power:
  "RC5_startBit = 2 ^ 13" "RC5_cmdBit7 = 2 ^ 12" "RC5_toggleBit = 2 ^ 11"
  by (simp_all add: RC5_startBit_def RC5_cmdBit7_def RC5_toggleBit_def)

lemma ucast_push_ucast: "(ucast (push_bit 6 (ucast addr :: 32 word)) :: 16 word) = push_bit 6 (ucast addr)"
  for addr :: "8 word"
  by (rule bit_word_eqI) (auto simp: bit_simps)

lemma cmd_low6: "bit (cmd AND 0x3f) j = (bit cmd j \<and> j < 6)" for cmd :: "8 word"
proof -
  have e: "(0x3f :: 8 word) = mask 6"
    by (simp add: mask_eq_exp_minus_1)
  show ?thesis
    unfolding e by (auto simp: bit_and_iff bit_mask_iff)
qed

lemma bit_RC5_message:
  "bit (RC5_message addr cmd t) j \<longleftrightarrow>
     j = 13 \<or> (j = 12 \<and> \<not> bit cmd 6) \<or> (j = 11 \<and> t \<noteq> 0)
     \<or> (j < 6 \<and> bit cmd j) \<or> (6 \<le> j \<and> j < 14 \<and> bit addr (j - 6))"
  apply (simp only: RC5_message_def Let_def not_cmd_bit6 RC5_consts_power ucast_push_ucast)
  apply (simp only: bit_or_iff bit_push_bit_iff bit_ucast_iff cmd_low6 bit_exp_iff
      if_distrib [of "\<lambda>w. bit w j"] cong: if_cong)
  apply (auto dest: bit_imp_le_length)
  done


lemma word8_le_1: "t \<le> 1 \<Longrightarrow> t = 0 \<or> t = 1" for t :: "8 word"
  by (auto simp: le_less word_less_1)

lemma toggle_bit: "addr < 32 \<Longrightarrow> bit (RC5_message addr cmd t) 11 = (t \<noteq> 0)"
  by (auto simp: bit_RC5_message dest: bit_less_32)

lemma RC5_sendCode_returns:
  assumes "held_for env (polls s) n"
  shows "\<exists>s'. RC5_sendCode env addr cmd s = Some s'
      \<and> emitted s s' =
          concat (map (\<lambda>k. RC5_telegram_wave (RC5_message addr cmd (RC5_toggle s))
                              @ [Key_polled k])
            (polled env (polls s) n @ [0]))
      \<and> RC5_toggle s' = RC5_toggle s XOR 1
      \<and> polls s' = polls s + n + 1"
  by (simp add: RC5_sendCode_Some [OF assms] frames_same)

subsection \<open>Reads of the keys in what is emitted\<close>

lemma concat_map_Nil: "concat (map (\<lambda>x. []) xs) = []"
  by (induction xs) simp_all

lemma no_poll_NEC_mark: "filter is_poll NEC_mark = []"
  by (simp add: NEC_mark_def)

lemma no_poll_NEC_byte: "filter is_poll (NEC_byte_wave v) = []"
  by (simp add: NEC_byte_wave_def NEC_bit_wave_def no_poll_NEC_mark filter_concat o_def
      concat_map_Nil if_distrib [of "filter is_poll"] del: upt_Suc cong: if_cong)

lemma no_poll_NEC_telegram: "filter is_poll (NEC_telegram_wave a c) = []"
  by (simp add: NEC_telegram_wave_def NEC_bytes_def no_poll_NEC_mark no_poll_NEC_byte)

lemma no_poll_NEC_repeat: "filter is_poll NEC_repeat_wave = []"
  by (simp add: NEC_repeat_wave_def no_poll_NEC_mark)

lemma no_poll_SAM_telegram: "filter is_poll (SAM_telegram_wave b c) = []"
  by (simp add: SAM_telegram_wave_def no_poll_NEC_mark no_poll_NEC_byte)

lemma no_poll_RC5_telegram: "filter is_poll (RC5_telegram_wave m) = []"
  by (simp add: RC5_telegram_wave_def RC5_bit_wave_def filter_concat o_def concat_map_Nil
      if_distrib [of "filter is_poll"] del: upt_Suc cong: if_cong)

lemma no_poll_SON_telegram: "filter is_poll (SON_telegram_wave a c v) = []"
  by (simp add: SON_telegram_wave_def SON_bit_wave_def filter_concat o_def concat_map_Nil)

lemmas no_poll = no_poll_NEC_telegram no_poll_NEC_repeat no_poll_SAM_telegram
  no_poll_RC5_telegram no_poll_SON_telegram

lemma polled_nonzero: "held_for env p n \<Longrightarrow> 0 \<notin> set (polled env p n)"
  by (auto simp: held_for_iff polled_def)

lemma length_polled [simp]: "length (polled env p n) = n"
  by (simp add: polled_def)

lemma not_poll_mem: "filter is_poll w = [] \<Longrightarrow> Key_polled k \<notin> set w"
  by (auto simp: filter_empty_conv)

lemma frames_last_poll:
  assumes "filter is_poll f = []" and "filter is_poll r = []" and "0 \<notin> set ks"
  shows "\<exists>w. frames f r ks = w @ [Key_polled 0] \<and> Key_polled 0 \<notin> set w"
proof -
  let ?w = "f @ concat (map (\<lambda>k. Key_polled k # r) ks)"
  from assms have "Key_polled 0 \<notin> set ?w"
    by (auto dest: not_poll_mem)
  moreover have "frames f r ks = ?w @ [Key_polled 0]"
    by (simp add: frames_def)
  ultimately show ?thesis
    by blast
qed

text \<open>If some read returns 0, there is a first one.\<close>

lemma first_release:
  assumes "KEY_value (env (p + j)) = 0"
  shows "\<exists>n\<le>j. held_for env p n"
proof -
  let ?P = "\<lambda>i. KEY_value (env (p + i)) = 0"
  from assms have "?P (LEAST i. ?P i)"
    by (rule LeastI)
  moreover have "\<forall>i < (LEAST i. ?P i). \<not> ?P i"
    by (auto dest: not_less_Least)
  moreover from assms have "(LEAST i. ?P i) \<le> j"
    by (rule Least_le)
  ultimately show ?thesis
    unfolding held_for_iff by blast
qed

subsection \<open>The waveform does not depend on which key was read\<close>

lemma waveform_ignores_polls: "waveform c w = waveform c (filter (\<lambda>e. \<not> is_poll e) w)"
  by (induction c w rule: waveform.induct) simp_all

lemma strip_frames:
  "filter (\<lambda>e. \<not> is_poll e) (frames f r ks) =
     filter (\<lambda>e. \<not> is_poll e) f
     @ concat (replicate (length ks) (filter (\<lambda>e. \<not> is_poll e) r))"
  by (induction ks) (simp_all add: frames_def)

lemma waveform_frames_length:
  "length ks = length ks' \<Longrightarrow> waveform c (frames f r ks) = waveform c (frames f r ks')"
  by (simp add: waveform_ignores_polls [of c "frames f r ks"]
      waveform_ignores_polls [of c "frames f r ks'"] strip_frames)

lemma waveform_frames_polled:
  "waveform c (frames f r (polled env1 p1 n)) = waveform c (frames f r (polled env2 p2 n))"
  by (rule waveform_frames_length) simp

subsection \<open>The keys and the value read\<close>

lemma KEY_value_eq_0: "KEY_value p = 0 \<longleftrightarrow> (\<forall>k\<in>key_pins. PIN_read p k)"
  by (simp add: KEY_value_def key_pins_def)

lemma held_for_pins:
  "held_for env p n \<longleftrightarrow>
     (\<forall>j<n. \<exists>k\<in>key_pins. \<not> PIN_read (env (p + j)) k)
     \<and> (\<forall>k\<in>key_pins. PIN_read (env (p + n)) k)"
  by (simp add: held_for_iff KEY_value_eq_0)

subsection \<open>Durations and counts\<close>

lemma emitted_emit [simp]: "emitted s (emit w s) = w"
  by (simp add: emitted_def)

lemma NEC_bit_waveform:
  "waveform False (NEC_bit_wave b) =
     [(True, 552), (False, 543)] @ (if b then [(False, 1125)] else [])"
  by (simp add: NEC_bit_wave_def NEC_mark_def)

lemma bursts_SON_bits: "bursts (concat (map (\<lambda>j. SON_bit_wave (f j)) xs)) = length xs"
  by (induction xs) (simp_all add: bursts_def SON_bit_wave_def)

lemma SON_sendByte_emit:
  "SON_sendByte val number s =
     emit (concat (map (\<lambda>j. SON_bit_wave (bit val j))
       [0..<(if number = 0 then 256 else unat number)])) s"
proof (cases "number = 0")
  case True
  have e: "(0 - 1 :: 8 word) = 255"
    by simp
  have "unat (0 - 1 :: 8 word) = 255"
    unfolding e by simp
  from SON_sendByte_upto [OF this] True show ?thesis
    by (simp del: upt_Suc)
next
  case False
  then have "unat (number - 1) = unat number - 1" and "unat number \<noteq> 0"
    by (simp_all add: unat_minus_one unat_eq_0)
  then have "Suc (unat (number - 1)) = unat number"
    by simp
  with SON_sendByte_upto [OF refl, where number = number and val = val and s = s] False
  show ?thesis
    by (simp del: upt_Suc)
qed

section \<open>The claims\<close>

text \<open>
  C1. \<open>NEC_sendCode\<close>, for every 16-bit address and 8-bit command, when the keys are read
  \<open>n\<close> times before a read returns 0: the call returns, and what it emitted is one
  telegram, namely the start frame (carrier on for 9000 us, off for 4500 us), the four bytes
  \<open>addr, ~addr, cmd, ~cmd\<close> for an address up to \<open>0xFF\<close> and
  \<open>low byte, high byte, cmd, ~cmd\<close> for a larger one, each byte least significant bit
  first, and one end mark; then, for each of the \<open>n\<close> reads that returned a key, a wait of
  40 ms, the repeat frame (on for 9000 us, off for 2250 us, end mark) and a wait of 56 ms;
  then the read that returned 0.
\<close>

theorem NEC_sendCode_telegram:
  assumes "held_for env (polls s) n"
  shows "map_option (emitted s) (NEC_sendCode env addr cmd s) =
     Some ([Carrier_on, Wait_us 9000, Carrier_off, Wait_us 4500]
           @ concat (map NEC_byte_wave
               (if addr \<le> 0xFF then [ucast addr, NOT (ucast addr), cmd, NOT cmd]
                else [ucast addr, ucast (drop_bit 8 addr), cmd, NOT cmd]))
           @ NEC_mark
           @ concat (map (\<lambda>k. [Key_polled k, Wait_ms 40,
                                 Carrier_on, Wait_us 9000, Carrier_off, Wait_us 2250]
                                @ NEC_mark @ [Wait_ms 56])
               (polled env (polls s) n))
           @ [Key_polled 0])"
  by (simp add: NEC_sendCode_Some [OF assms] frames_def NEC_telegram_wave_def NEC_bytes_def
      NEC_repeat_wave_def)

theorem NEC_sendCode_telegram_witness:
  "held_for (press PIN_KEY1 2) (polls reset_state) 2 \<and>
   map_option (emitted reset_state) (NEC_sendCode (press PIN_KEY1 2) 0x04 0x08 reset_state) =
     Some ([Carrier_on, Wait_us 9000, Carrier_off, Wait_us 4500]
           @ concat (map NEC_byte_wave [0x04, 0xFB, 0x08, 0xF7])
           @ NEC_mark
           @ [Key_polled 1, Wait_ms 40, Carrier_on, Wait_us 9000, Carrier_off, Wait_us 2250]
           @ NEC_mark @ [Wait_ms 56]
           @ [Key_polled 1, Wait_ms 40, Carrier_on, Wait_us 9000, Carrier_off, Wait_us 2250]
           @ NEC_mark @ [Wait_ms 56]
           @ [Key_polled 0]) \<and>
   map_option (emitted reset_state) (NEC_sendCode (press PIN_KEY1 0) 0x1234 0x08 reset_state) =
     Some ([Carrier_on, Wait_us 9000, Carrier_off, Wait_us 4500]
           @ concat (map NEC_byte_wave [0x34, 0x12, 0x08, 0xF7])
           @ NEC_mark @ [Key_polled 0])"
proof -
  have p: "polls reset_state = 0"
    by (simp add: reset_state_def)
  have h2: "held_for (press PIN_KEY1 2) (polls reset_state) 2"
    and h0: "held_for (press PIN_KEY1 0) (polls reset_state) 0"
    by (simp_all add: p held_for_press)
  have k2: "polled (press PIN_KEY1 2) 0 2 = [1, 1]" and k0: "polled (press PIN_KEY1 0) 0 0 = []"
    by (simp_all add: polled_press numeral_2_eq_2)
  have b: "(- 5 :: 8 word) = 0xFB" "(- 9 :: 8 word) = 0xF7" "(4660 :: 8 word) = 0x34"
    by simp_all
  show ?thesis
    using h2 NEC_sendCode_telegram [OF h2, where addr = "0x04" and cmd = "0x08"]
      NEC_sendCode_telegram [OF h0, where addr = "0x1234" and cmd = "0x08"]
    by (simp add: p k2 k0 b)
qed



text \<open>
  C3. Take a state with \<open>RC5_toggle\<close> 0 or 1 (it is 0 after reset), addresses below 32,
  and a key history on which a first call of \<open>RC5_sendCode\<close> reads the keys \<open>n\<close> times
  before a 0 and a second call \<open>m\<close> times. The first call returns; all its \<open>n + 1\<close>
  telegrams are the telegram of one message, whose toggle bit (bit 11) is the value
  \<open>RC5_toggle\<close> had at the call; on return \<open>RC5_toggle\<close> is that value XOR 1, again 0 or
  1. The second call, from the state the first one returned, returns too, and the toggle
  bit of its message is the inverse of the first call's. \<open>NEC_sendCode\<close>, \<open>SAM_sendCode\<close>
  and \<open>SON_sendCode\<close> return with \<open>RC5_toggle\<close> unchanged.
\<close>

theorem RC5_toggle_discipline:
  assumes "held_for env (polls s) n" and "held_for env (polls s + n + 1) m"
    and "RC5_toggle s \<le> 1" and "addr < 32" and "addr' < 32"
  shows "(\<exists>s'. RC5_sendCode env addr cmd s = Some s'
            \<and> emitted s s' =
                concat (map (\<lambda>k. RC5_telegram_wave (RC5_message addr cmd (RC5_toggle s))
                                    @ [Key_polled k])
                  (polled env (polls s) n @ [0]))
            \<and> bit (RC5_message addr cmd (RC5_toggle s)) 11 = (RC5_toggle s = 1)
            \<and> RC5_toggle s' = RC5_toggle s XOR 1
            \<and> RC5_toggle s' \<le> 1
            \<and> (\<exists>s''. RC5_sendCode env addr' cmd' s' = Some s''
                  \<and> emitted s' s'' =
                      concat (map (\<lambda>k. RC5_telegram_wave
                                            (RC5_message addr' cmd' (RC5_toggle s'))
                                          @ [Key_polled k])
                        (polled env (polls s') m @ [0]))
                  \<and> bit (RC5_message addr' cmd' (RC5_toggle s')) 11 =
                      (\<not> bit (RC5_message addr cmd (RC5_toggle s)) 11)))
       \<and> map_option RC5_toggle (NEC_sendCode env a c s) = Some (RC5_toggle s)
       \<and> map_option RC5_toggle (SAM_sendCode env b c s) = Some (RC5_toggle s)
       \<and> map_option RC5_toggle (SON_sendCode env a c v s) = Some (RC5_toggle s)"
proof -
  from RC5_sendCode_returns [OF assms(1)] obtain s' where
    first: "RC5_sendCode env addr cmd s = Some s'"
    and e1: "emitted s s' =
      concat (map (\<lambda>k. RC5_telegram_wave (RC5_message addr cmd (RC5_toggle s)) @ [Key_polled k])
        (polled env (polls s) n @ [0]))"
    and t': "RC5_toggle s' = RC5_toggle s XOR 1"
    and p': "polls s' = polls s + n + 1"
    by blast
  from assms(2) have h': "held_for env (polls s') m"
    by (simp only: p')
  from RC5_sendCode_returns [OF h'] obtain s'' where
    second: "RC5_sendCode env addr' cmd' s' = Some s''"
    and e2: "emitted s' s'' =
      concat (map (\<lambda>k. RC5_telegram_wave (RC5_message addr' cmd' (RC5_toggle s'))
                          @ [Key_polled k])
        (polled env (polls s') m @ [0]))"
    by blast
  from assms(3) have t01: "RC5_toggle s = 0 \<or> RC5_toggle s = 1"
    by (rule word8_le_1)
  then have flip: "(RC5_toggle s XOR 1 \<noteq> 0) = (\<not> RC5_toggle s \<noteq> 0)"
    and le': "RC5_toggle s XOR 1 \<le> 1" and is1: "(RC5_toggle s \<noteq> 0) = (RC5_toggle s = 1)"
    by auto
  have bits: "bit (RC5_message addr' cmd' (RC5_toggle s')) 11 =
      (\<not> bit (RC5_message addr cmd (RC5_toggle s)) 11)"
    by (simp only: t' toggle_bit [OF assms(4)] toggle_bit [OF assms(5)] flip)
  have b1: "bit (RC5_message addr cmd (RC5_toggle s)) 11 = (RC5_toggle s = 1)"
    by (simp only: toggle_bit [OF assms(4)] is1)
  from le' have le'': "RC5_toggle s' \<le> 1"
    by (simp only: t')
  have others: "map_option RC5_toggle (NEC_sendCode env a c s) = Some (RC5_toggle s)"
    "map_option RC5_toggle (SAM_sendCode env b c s) = Some (RC5_toggle s)"
    "map_option RC5_toggle (SON_sendCode env a c v s) = Some (RC5_toggle s)"
    by (simp_all add: NEC_sendCode_Some [OF assms(1)] SAM_sendCode_Some [OF assms(1)]
        SON_sendCode_Some [OF assms(1)])
  from first e1 b1 t' le'' second e2 bits others show ?thesis
    by blast
qed

theorem RC5_toggle_discipline_witness:
  "held_for (press PIN_KEY2 2) (polls reset_state) 2
   \<and> held_for (press PIN_KEY2 2) (polls reset_state + 2 + 1) 0
   \<and> RC5_toggle reset_state \<le> 1 \<and> (0 :: 8 word) < 32
   \<and> (\<exists>s'. RC5_sendCode (press PIN_KEY2 2) 0 0x0B reset_state = Some s'
          \<and> RC5_toggle s' = 1
          \<and> \<not> bit (RC5_message 0 0x0B (RC5_toggle reset_state)) 11
          \<and> (\<exists>s''. RC5_sendCode (press PIN_KEY2 2) 0 0x0B s' = Some s''
                \<and> bit (RC5_message 0 0x0B (RC5_toggle s')) 11))
   \<and> map_option RC5_toggle (NEC_sendCode (press PIN_KEY2 2) 0x04 0x08 reset_state) = Some 0"
proof -
  have h1: "held_for (press PIN_KEY2 2) (polls reset_state) 2"
    by (simp add: polls_reset_state held_for_press)
  have h2: "held_for (press PIN_KEY2 2) (polls reset_state + 2 + 1) 0"
    by (simp add: polls_reset_state held_for_iff press_def KEY_value_key_down)
  have t: "RC5_toggle reset_state \<le> 1"
    by (simp add: reset_state_def)
  have a: "(0 :: 8 word) < 32"
    by simp
  have t0: "RC5_toggle reset_state = 0"
    by (simp add: reset_state_def)
  show ?thesis
    using h1 h2 t a
      RC5_toggle_discipline [OF h1 h2 t a a, where cmd = "0x0B" and cmd' = "0x0B"
        and a = "0x04" and c = "0x08" and b = 0 and v = 12]
    by (auto simp: t0)
qed

text \<open>
  C4. \<open>SAM_sendCode\<close>, for every 8-bit address and command, when the keys are read \<open>n\<close>
  times before a read returns 0: the call returns, and what it emitted is \<open>n + 1\<close> times
  the whole telegram, each followed by a wait of 44 ms and a read of the keys. The telegram is
  the start frame (carrier on for 4500 us, off for 4500 us), the bytes
  \<open>addr, addr, cmd, ~cmd\<close> with the bits of NEC, least significant bit first, and one end
  mark. There is no shorter repeat frame.
\<close>

theorem SAM_sendCode_telegram:
  assumes "held_for env (polls s) n"
  shows "map_option (emitted s) (SAM_sendCode env addr cmd s) =
     Some (concat (map (\<lambda>k. [Carrier_on, Wait_us 4500, Carrier_off, Wait_us 4500]
                              @ concat (map NEC_byte_wave [addr, addr, cmd, NOT cmd])
                              @ NEC_mark
                              @ [Wait_ms 44, Key_polled k])
             (polled env (polls s) n @ [0])))"
  by (simp add: SAM_sendCode_Some [OF assms] frames_same SAM_telegram_wave_def)

theorem SAM_sendCode_telegram_witness:
  "held_for (press PIN_KEY4 1) (polls reset_state) 1 \<and>
   map_option (emitted reset_state) (SAM_sendCode (press PIN_KEY4 1) 0x07 0x02 reset_state) =
     Some ([Carrier_on, Wait_us 4500, Carrier_off, Wait_us 4500]
           @ concat (map NEC_byte_wave [0x07, 0x07, 0x02, 0xFD]) @ NEC_mark
           @ [Wait_ms 44, Key_polled 4]
           @ [Carrier_on, Wait_us 4500, Carrier_off, Wait_us 4500]
           @ concat (map NEC_byte_wave [0x07, 0x07, 0x02, 0xFD]) @ NEC_mark
           @ [Wait_ms 44, Key_polled 0])"
proof -
  have h: "held_for (press PIN_KEY4 1) (polls reset_state) 1"
    by (simp add: polls_reset_state held_for_press)
  have k: "polled (press PIN_KEY4 (Suc 0)) 0 (Suc 0) = [4]"
    by (simp add: polled_press_any KEY_value_key_down)
  have b: "(- 3 :: 8 word) = 0xFD"
    by simp
  show ?thesis
    using h SAM_sendCode_telegram [OF h, where addr = "0x07" and cmd = "0x02"]
    by (simp add: polls_reset_state k b)
qed

text \<open>
  C5. \<open>SON_sendCode\<close>, for every address, command and variant, when the keys are read
  \<open>n\<close> times before a read returns 0: the call returns (no error), and every telegram it
  emitted is the start frame, the command bits 0 to 6, then the address bits 0 to 4 for
  variant 12, 0 to 7 for variant 15, 0 to 7 followed by 8 to 12 for variant 20, and no
  address bit for any other variant; then a wait of 27 ms and a read of the keys.
\<close>

theorem SON_sendCode_telegram:
  assumes "held_for env (polls s) n"
  shows "map_option (emitted s) (SON_sendCode env addr cmd bits s) =
     Some (concat (map (\<lambda>k. [Carrier_on, Wait_us 2400, Carrier_off, Wait_us 579]
                              @ concat (map SON_bit_wave
                                  (map (bit cmd) [0..<7]
                                   @ (if bits = 12 then map (bit addr) [0..<5]
                                      else if bits = 15 then map (bit addr) [0..<8]
                                      else if bits = 20
                                        then map (bit addr) [0..<8] @ map (bit addr) [8..<13]
                                      else [])))
                              @ [Wait_ms 27, Key_polled k])
             (polled env (polls s) n @ [0])))"
proof -
  have "[0..<13] = [0..<8] @ [8..<13]"
    by (simp add: upt_add_eq_append [of 0 8 5, simplified])
  then have "map (bit addr) [0..<13] = map (bit addr) [0..<8] @ map (bit addr) [8..<13]"
    by (simp only: map_append)
  then show ?thesis
    by (simp add: SON_sendCode_Some [OF assms] frames_same SON_telegram_wave_def
        SON_data_bits_def del: upt_Suc)
qed

theorem SON_sendCode_telegram_witness:
  "held_for (press PIN_KEY3 0) (polls reset_state) 0 \<and>
   map_option (emitted reset_state) (SON_sendCode (press PIN_KEY3 0) 0x01 0x15 12 reset_state) =
     Some ([Carrier_on, Wait_us 2400, Carrier_off, Wait_us 579]
           @ concat (map SON_bit_wave
               ([True, False, True, False, True, False, False]
                @ [True, False, False, False, False]))
           @ [Wait_ms 27, Key_polled 0]) \<and>
   map_option (emitted reset_state) (SON_sendCode (press PIN_KEY3 0) 0x01 0x15 13 reset_state) =
     Some ([Carrier_on, Wait_us 2400, Carrier_off, Wait_us 579]
           @ concat (map SON_bit_wave [True, False, True, False, True, False, False])
           @ [Wait_ms 27, Key_polled 0])"
proof -
  have h: "held_for (press PIN_KEY3 0) (polls reset_state) 0"
    by (simp add: polls_reset_state held_for_press)
  have k: "polled (press PIN_KEY3 0) 0 0 = []"
    by (simp add: polled_press_any)
  have c: "map (bit (0x15 :: 8 word)) [0..<7] = [True, False, True, False, True, False, False]"
    by (simp add: upt_0_7)
  have a: "map (bit (0x01 :: 16 word)) [0..<5] = [True, False, False, False, False]"
    by (simp add: upt_0_5 bit_1_iff)
  show ?thesis
    using h SON_sendCode_telegram [OF h, where addr = "0x01" and cmd = "0x15" and bits = 12]
      SON_sendCode_telegram [OF h, where addr = "0x01" and cmd = "0x15" and bits = 13]
    by (simp add: polls_reset_state k c a del: upt_Suc)
qed

text \<open>
  C6, as the code has it. The condition of the repeat loops is \<open>KEY_read()\<close>, which is not
  0 when any of the five keys is down, whichever key started the telegram. If at each of
  \<open>n\<close> reads in a row some key is down, and at the next read none is, then each of the four
  encoders returns, and what it emitted is: the first telegram; for each of the \<open>n\<close> reads
  that read and one more frame (the repeat frame for NEC, the whole telegram for the
  others); the read that returned 0. The telegrams and the repeat frame contain no read of
  the keys, so the keys are read between frames only.
\<close>

theorem repeat_while_any_key:
  assumes "\<forall>j<n. \<exists>k\<in>key_pins. \<not> PIN_read (env (polls s + j)) k"
    and "\<forall>k\<in>key_pins. PIN_read (env (polls s + n)) k"
  shows "map_option (emitted s) (NEC_sendCode env a c s) =
           Some (NEC_telegram_wave a c
                 @ concat (map (\<lambda>k. Key_polled k # NEC_repeat_wave) (polled env (polls s) n))
                 @ [Key_polled 0])
       \<and> map_option (emitted s) (SAM_sendCode env b c s) =
           Some (SAM_telegram_wave b c
                 @ concat (map (\<lambda>k. Key_polled k # SAM_telegram_wave b c)
                     (polled env (polls s) n))
                 @ [Key_polled 0])
       \<and> map_option (emitted s) (RC5_sendCode env b c s) =
           Some (RC5_telegram_wave (RC5_message b c (RC5_toggle s))
                 @ concat (map (\<lambda>k. Key_polled k
                                      # RC5_telegram_wave (RC5_message b c (RC5_toggle s)))
                     (polled env (polls s) n))
                 @ [Key_polled 0])
       \<and> map_option (emitted s) (SON_sendCode env a c v s) =
           Some (SON_telegram_wave a c v
                 @ concat (map (\<lambda>k. Key_polled k # SON_telegram_wave a c v)
                     (polled env (polls s) n))
                 @ [Key_polled 0])
       \<and> length (polled env (polls s) n) = n \<and> 0 \<notin> set (polled env (polls s) n)
       \<and> filter is_poll (NEC_telegram_wave a c) = [] \<and> filter is_poll NEC_repeat_wave = []
       \<and> filter is_poll (SAM_telegram_wave b c) = []
       \<and> filter is_poll (RC5_telegram_wave (RC5_message b c (RC5_toggle s))) = []
       \<and> filter is_poll (SON_telegram_wave a c v) = []"
proof -
  from assms have h: "held_for env (polls s) n"
    by (simp only: held_for_pins simp_thms)
  show ?thesis
    using polled_nonzero [OF h]
    by (simp add: NEC_sendCode_Some [OF h] SAM_sendCode_Some [OF h] RC5_sendCode_Some [OF h]
        SON_sendCode_Some [OF h] frames_def no_poll)
qed

theorem repeat_while_any_key_witness:
  "KEY_value (key1_then_key2 1) = 2 \<and> KEY_value (key1_then_key2 2) = 0
   \<and> map_option (emitted (emit [Key_polled 1] (reset_state\<lparr>polls := 1\<rparr>)))
        (NEC_sendCode key1_then_key2 0x04 0x08
          (emit [Key_polled 1] (reset_state\<lparr>polls := 1\<rparr>))) =
      Some (NEC_telegram_wave 0x04 0x08 @ [Key_polled 2] @ NEC_repeat_wave @ [Key_polled 0])"
proof -
  let ?s = "emit [Key_polled 1] (reset_state\<lparr>polls := 1\<rparr>)"
  have a1: "\<forall>j<1. \<exists>k\<in>key_pins. \<not> PIN_read (key1_then_key2 (polls ?s + j)) k"
    by (simp add: key1_then_key2_def key_pins_def PIN_read_def key_down_def)
  have a2: "\<forall>k\<in>key_pins. PIN_read (key1_then_key2 (polls ?s + 1)) k"
    by (simp add: key1_then_key2_def key_pins_def PIN_read_def no_key_def)
  have v: "KEY_value (key1_then_key2 1) = 2" "KEY_value (key1_then_key2 2) = 0"
    by (simp_all add: key1_then_key2_def KEY_value_key_down)
  have k: "polled key1_then_key2 (Suc 0) (Suc 0) = [2]"
    by (simp add: polled_def key1_then_key2_def KEY_value_key_down)
  from repeat_while_any_key [OF a1 a2, where a = "0x04" and c = "0x08", THEN conjunct1]
  have "map_option (emitted ?s) (NEC_sendCode key1_then_key2 0x04 0x08 ?s) =
      Some (NEC_telegram_wave 0x04 0x08 @ [Key_polled 2] @ NEC_repeat_wave @ [Key_polled 0])"
    by (simp add: k)
  with v show ?thesis
    by blast
qed

text \<open>
  Key 1 starts the NEC telegram of config.h. At the first read of the keys after the
  telegram key 1 is up again and key 2 is down: a repeat frame is emitted all the same.
\<close>

theorem originating_key_counterexample:
  "PIN_read (key1_then_key2 1) PIN_KEY1
   \<and> map_option trace (main_loop_body key1_then_key2 reset_state) =
      Some ([Wait_ms 1, Key_polled 1] @ NEC_telegram_wave 0x04 0x08
            @ [Key_polled 2] @ NEC_repeat_wave @ [Key_polled 0])"
proof -
  let ?s = "(DLY_ms 1 reset_state)
      \<lparr>trace := trace (DLY_ms 1 reset_state) @ [Key_polled 1],
       polls := Suc (polls (DLY_ms 1 reset_state))\<rparr>"
  let ?r = "(PWM_set NEC_FREQ ?s)
       \<lparr>trace := trace ?s @ frames (NEC_telegram_wave 0x04 0x08) NEC_repeat_wave
                             (polled key1_then_key2 (polls ?s) 1),
        polls := polls ?s + 1 + 1\<rparr>"
  have p: "polls ?s = Suc 0"
    by (simp add: DLY_ms_def polls_reset_state)
  have h: "held_for key1_then_key2 (polls ?s) 1"
    unfolding p by (simp add: held_for_iff key1_then_key2_def KEY_value_key_down)
  have k: "polled key1_then_key2 (polls ?s) 1 = [2]"
    unfolding p by (simp add: polled_def key1_then_key2_def KEY_value_key_down)
  have m: "main_loop_body key1_then_key2 reset_state =
      NEC_sendCode key1_then_key2 0x04 0x08 ?s"
    by (simp add: main_loop_body_def KEY_read_def Let_def KEY1_def DLY_ms_def
        key1_then_key2_def KEY_value_key_down polls_reset_state)
  have n: "NEC_sendCode key1_then_key2 0x04 0x08 ?s = Some ?r"
    by (rule NEC_sendCode_Some [OF h])
  have t: "trace ?r = [Wait_ms 1, Key_polled 1] @ NEC_telegram_wave 0x04 0x08
            @ [Key_polled 2] @ NEC_repeat_wave @ [Key_polled 0]"
    unfolding k by (simp add: frames_def DLY_ms_def reset_state_def)
  have pin: "PIN_read (key1_then_key2 1) PIN_KEY1"
    by (simp add: key1_then_key2_def PIN_read_def key_down_def PIN_KEY1_def PIN_KEY2_def)
  from m n have "map_option trace (main_loop_body key1_then_key2 reset_state) = Some (trace ?r)"
    by (simp only: option.map)
  with t pin show ?thesis
    by (simp only: simp_thms)
qed

text \<open>
  C7, as the code has it. \<open>NEC_sendByte\<close> emits the eight bits of the byte, least
  significant first. Every bit is a burst requested for 552 us, then a space requested for
  543 us for a 0 bit and for 543 + 1125 = 1668 us for a 1 bit: the burst is the same, the
  space alone tells the bit. The burst is within 2 percent of 562.5 us, the space of a 1
  bit within 2 percent of 1687.5 us and the 1 bit within 2 percent of 2250 us; the space
  of a 0 bit is within 4 percent of 562.5 us and the 0 bit within 3 percent of 1125 us.
\<close>

theorem NEC_bit_timing:
  "emitted s (NEC_sendByte val s) = concat (map (\<lambda>j. NEC_bit_wave (bit val j)) [0..<8])
   \<and> waveform False (NEC_bit_wave b) =
       [(True, 552), (False, 543)] @ (if b then [(False, 1125)] else [])
   \<and> burst_us (NEC_bit_wave b) = 552
   \<and> space_us (NEC_bit_wave b) = (if b then 1668 else 543)
   \<and> within_percent 2 562.5 (real (burst_us (NEC_bit_wave b)))
   \<and> within_percent 2 1687.5 (real (space_us (NEC_bit_wave True)))
   \<and> within_percent 2 2250
       (real (burst_us (NEC_bit_wave True) + space_us (NEC_bit_wave True)))
   \<and> within_percent 4 562.5 (real (space_us (NEC_bit_wave False)))
   \<and> within_percent 3 1125
       (real (burst_us (NEC_bit_wave False) + space_us (NEC_bit_wave False)))"
  by (simp add: NEC_sendByte_emit NEC_byte_wave_def burst_us_def space_us_def NEC_bit_waveform
      within_percent_def del: upt_Suc)

theorem NEC_bit_timing_witness:
  "emitted reset_state (NEC_sendByte 0x04 reset_state) =
     concat (map NEC_bit_wave [False, False, True, False, False, False, False, False])
   \<and> waveform False (NEC_bit_wave True) = [(True, 552), (False, 543), (False, 1125)]
   \<and> space_us (NEC_bit_wave True) = 1668"
  using NEC_bit_timing [of reset_state "0x04" True]
  by (simp add: upt_0_8)

text \<open>
  The first bit of the byte 0 is a 0 bit: a burst of 552 us and a space of 543 us. 543 is
  more than 2 percent below 562.5, and the bit's 1095 us more than 2 percent below 1125.
\<close>

theorem NEC_bit0_space_counterexample:
  "waveform False (take 4 (emitted reset_state (NEC_sendByte 0x00 reset_state))) =
     [(True, 552), (False, 543)]
   \<and> \<not> within_percent 2 562.5 543
   \<and> \<not> within_percent 2 1125 (552 + 543)"
  by (simp add: NEC_sendByte_emit NEC_byte_wave_def upt_0_8 NEC_bit_wave_def NEC_mark_def
      within_percent_def)

text \<open>
  C8. If some read of the keys from the call on returns 0, say the read number \<open>j\<close>
  counted from the call, then each of the four encoders returns, it has read the keys at
  most \<open>j + 1\<close> times, and the read that returned 0 is the last thing it did and the only
  read that returned 0: nothing is emitted after it.
\<close>

theorem sendCode_terminates:
  assumes "KEY_value (env (polls s + j)) = 0"
  shows "(\<exists>s' w. NEC_sendCode env a c s = Some s' \<and> polls s' \<le> polls s + j + 1
            \<and> emitted s s' = w @ [Key_polled 0] \<and> Key_polled 0 \<notin> set w)
       \<and> (\<exists>s' w. SAM_sendCode env b c s = Some s' \<and> polls s' \<le> polls s + j + 1
            \<and> emitted s s' = w @ [Key_polled 0] \<and> Key_polled 0 \<notin> set w)
       \<and> (\<exists>s' w. RC5_sendCode env b c s = Some s' \<and> polls s' \<le> polls s + j + 1
            \<and> emitted s s' = w @ [Key_polled 0] \<and> Key_polled 0 \<notin> set w)
       \<and> (\<exists>s' w. SON_sendCode env a c v s = Some s' \<and> polls s' \<le> polls s + j + 1
            \<and> emitted s s' = w @ [Key_polled 0] \<and> Key_polled 0 \<notin> set w)"
proof -
  from first_release [of env "polls s" j, OF assms] obtain n where n: "n \<le> j" and h: "held_for env (polls s) n"
    by blast
  from h have nz: "0 \<notin> set (polled env (polls s) n)"
    by (rule polled_nonzero)
  have nec: "\<exists>s' w. NEC_sendCode env a c s = Some s' \<and> polls s' \<le> polls s + j + 1
            \<and> emitted s s' = w @ [Key_polled 0] \<and> Key_polled 0 \<notin> set w"
    using frames_last_poll [OF no_poll_NEC_telegram no_poll_NEC_repeat nz] n
    by (simp add: NEC_sendCode_Some [OF h])
  have sam: "\<exists>s' w. SAM_sendCode env b c s = Some s' \<and> polls s' \<le> polls s + j + 1
            \<and> emitted s s' = w @ [Key_polled 0] \<and> Key_polled 0 \<notin> set w"
    using frames_last_poll [OF no_poll_SAM_telegram no_poll_SAM_telegram nz] n
    by (simp add: SAM_sendCode_Some [OF h])
  have rc5: "\<exists>s' w. RC5_sendCode env b c s = Some s' \<and> polls s' \<le> polls s + j + 1
            \<and> emitted s s' = w @ [Key_polled 0] \<and> Key_polled 0 \<notin> set w"
    using frames_last_poll [OF no_poll_RC5_telegram no_poll_RC5_telegram nz] n
    by (simp add: RC5_sendCode_Some [OF h])
  have son: "\<exists>s' w. SON_sendCode env a c v s = Some s' \<and> polls s' \<le> polls s + j + 1
            \<and> emitted s s' = w @ [Key_polled 0] \<and> Key_polled 0 \<notin> set w"
    using frames_last_poll [OF no_poll_SON_telegram no_poll_SON_telegram nz] n
    by (simp add: SON_sendCode_Some [OF h])
  from nec sam rc5 son show ?thesis
    by (simp only: simp_thms)
qed

theorem sendCode_terminates_witness:
  "KEY_value (press PIN_KEY1 3 (polls reset_state + 5)) = 0
   \<and> (\<exists>s' w. NEC_sendCode (press PIN_KEY1 3) 0x04 0x08 reset_state = Some s'
         \<and> polls s' \<le> 6
         \<and> emitted reset_state s' = w @ [Key_polled 0] \<and> Key_polled 0 \<notin> set w)
   \<and> (\<exists>s' w. SON_sendCode (press PIN_KEY1 3) 0x01 0x15 12 reset_state = Some s'
         \<and> polls s' \<le> 6
         \<and> emitted reset_state s' = w @ [Key_polled 0] \<and> Key_polled 0 \<notin> set w)"
proof -
  have r: "KEY_value (press PIN_KEY1 3 (polls reset_state + 5)) = 0"
    by (simp add: polls_reset_state press_def KEY_value_key_down)
  show ?thesis
    using r
      sendCode_terminates [where env = "press PIN_KEY1 3" and s = reset_state and j = 5
        and a = "0x04" and c = "0x08", OF r]
      sendCode_terminates [where env = "press PIN_KEY1 3" and s = reset_state and j = 5
        and a = "0x01" and c = "0x15" and v = 12, OF r]
    by (simp add: polls_reset_state)
qed

text \<open>
  C9. Two calls of the same encoder with the same address, command (and variant), on key
  histories whose reads return 0 at the same places, emit the same waveform: the same
  waits with the same carrier state, in the same order; either both calls return, or
  neither does. For \<open>RC5_sendCode\<close>, and for it alone, the two calls must also start with
  the same \<open>RC5_toggle\<close>. Nothing else of the state (the trace so far, the timer registers,
  the number of earlier reads and, for the other three encoders, \<open>RC5_toggle\<close>) and nothing
  else of the keys (which key is down) has an influence.
\<close>

theorem sendCode_deterministic:
  assumes "\<forall>j. (KEY_value (env1 (polls s1 + j)) = 0) = (KEY_value (env2 (polls s2 + j)) = 0)"
  shows "map_option (waveform False \<circ> emitted s1) (NEC_sendCode env1 a c s1) =
         map_option (waveform False \<circ> emitted s2) (NEC_sendCode env2 a c s2)
       \<and> map_option (waveform False \<circ> emitted s1) (SAM_sendCode env1 b c s1) =
         map_option (waveform False \<circ> emitted s2) (SAM_sendCode env2 b c s2)
       \<and> map_option (waveform False \<circ> emitted s1) (SON_sendCode env1 a c v s1) =
         map_option (waveform False \<circ> emitted s2) (SON_sendCode env2 a c v s2)
       \<and> (RC5_toggle s1 = RC5_toggle s2 \<longrightarrow>
           map_option (waveform False \<circ> emitted s1) (RC5_sendCode env1 b c s1) =
           map_option (waveform False \<circ> emitted s2) (RC5_sendCode env2 b c s2))"
proof (cases "\<exists>j. KEY_value (env1 (polls s1 + j)) = 0")
  case True
  then obtain j where "KEY_value (env1 (polls s1 + j)) = 0"
    by blast
  from first_release [of env1 "polls s1" j, OF this] obtain n
    where h1: "held_for env1 (polls s1) n"
    by blast
  with assms have h2: "held_for env2 (polls s2) n"
    by (simp add: held_for_iff)
  have others:
    "map_option (waveform False \<circ> emitted s1) (NEC_sendCode env1 a c s1) =
     map_option (waveform False \<circ> emitted s2) (NEC_sendCode env2 a c s2)"
    "map_option (waveform False \<circ> emitted s1) (SAM_sendCode env1 b c s1) =
     map_option (waveform False \<circ> emitted s2) (SAM_sendCode env2 b c s2)"
    "map_option (waveform False \<circ> emitted s1) (SON_sendCode env1 a c v s1) =
     map_option (waveform False \<circ> emitted s2) (SON_sendCode env2 a c v s2)"
    by (simp_all add: NEC_sendCode_Some [OF h1] NEC_sendCode_Some [OF h2]
        SAM_sendCode_Some [OF h1] SAM_sendCode_Some [OF h2]
        SON_sendCode_Some [OF h1] SON_sendCode_Some [OF h2]
        waveform_frames_polled [of _ _ _ env1 "polls s1" n env2 "polls s2"])
  have rc5: "RC5_toggle s1 = RC5_toggle s2 \<longrightarrow>
      map_option (waveform False \<circ> emitted s1) (RC5_sendCode env1 b c s1) =
      map_option (waveform False \<circ> emitted s2) (RC5_sendCode env2 b c s2)"
  proof
    assume t: "RC5_toggle s1 = RC5_toggle s2"
    show "map_option (waveform False \<circ> emitted s1) (RC5_sendCode env1 b c s1) =
      map_option (waveform False \<circ> emitted s2) (RC5_sendCode env2 b c s2)"
      by (simp add: RC5_sendCode_Some [OF h1] RC5_sendCode_Some [OF h2] t
          waveform_frames_polled [of _ _ _ env1 "polls s1" n env2 "polls s2"])
  qed
  from others rc5 show ?thesis
    by (simp only: simp_thms)
next
  case False
  then have n1: "\<forall>j. KEY_value (env1 (polls s1 + j)) \<noteq> 0"
    by blast
  with assms have n2: "\<forall>j. KEY_value (env2 (polls s2 + j)) \<noteq> 0"
    by blast
  show ?thesis
    by (simp add: sendCode_None [OF n1] sendCode_None [OF n2])
qed

text \<open>
  Two NEC calls from states with different \<open>RC5_toggle\<close>, different traces and different
  keys held, and two RC-5 calls from states with the same \<open>RC5_toggle\<close>.
\<close>

theorem sendCode_deterministic_witness:
  "(\<forall>j. (KEY_value (press PIN_KEY1 2 (polls reset_state + j)) = 0) =
        (KEY_value (press PIN_KEY3 2
           (polls ((DLY_ms 1 reset_state)\<lparr>RC5_toggle := 1\<rparr>) + j)) = 0))
   \<and> RC5_toggle reset_state \<noteq> RC5_toggle ((DLY_ms 1 reset_state)\<lparr>RC5_toggle := 1\<rparr>)
   \<and> map_option (waveform False \<circ> emitted reset_state)
        (NEC_sendCode (press PIN_KEY1 2) 0x04 0x08 reset_state) =
      map_option (waveform False \<circ> emitted ((DLY_ms 1 reset_state)\<lparr>RC5_toggle := 1\<rparr>))
        (NEC_sendCode (press PIN_KEY3 2) 0x04 0x08
          ((DLY_ms 1 reset_state)\<lparr>RC5_toggle := 1\<rparr>))
   \<and> RC5_toggle reset_state = RC5_toggle (DLY_ms 1 reset_state)
   \<and> map_option (waveform False \<circ> emitted reset_state)
        (RC5_sendCode (press PIN_KEY1 2) 0x00 0x0B reset_state) =
      map_option (waveform False \<circ> emitted (DLY_ms 1 reset_state))
        (RC5_sendCode (press PIN_KEY3 2) 0x00 0x0B (DLY_ms 1 reset_state))"
proof -
  let ?s2 = "(DLY_ms 1 reset_state)\<lparr>RC5_toggle := 1\<rparr>"
  have k: "\<forall>j. (KEY_value (press PIN_KEY1 2 (polls reset_state + j)) = 0) =
        (KEY_value (press PIN_KEY3 2 (polls ?s2 + j)) = 0)"
    by (simp add: press_def KEY_value_key_down DLY_ms_def)
  have k': "\<forall>j. (KEY_value (press PIN_KEY1 2 (polls reset_state + j)) = 0) =
        (KEY_value (press PIN_KEY3 2 (polls (DLY_ms 1 reset_state) + j)) = 0)"
    by (simp add: press_def KEY_value_key_down DLY_ms_def)
  have d: "RC5_toggle reset_state \<noteq> RC5_toggle ?s2"
    by (simp add: reset_state_def)
  have t: "RC5_toggle reset_state = RC5_toggle (DLY_ms 1 reset_state)"
    by (simp add: DLY_ms_def)
  have nec: "map_option (waveform False \<circ> emitted reset_state)
        (NEC_sendCode (press PIN_KEY1 2) 0x04 0x08 reset_state) =
      map_option (waveform False \<circ> emitted ?s2)
        (NEC_sendCode (press PIN_KEY3 2) 0x04 0x08 ?s2)"
    by (rule sendCode_deterministic [OF k, THEN conjunct1])
  have rc5: "map_option (waveform False \<circ> emitted reset_state)
        (RC5_sendCode (press PIN_KEY1 2) 0x00 0x0B reset_state) =
      map_option (waveform False \<circ> emitted (DLY_ms 1 reset_state))
        (RC5_sendCode (press PIN_KEY3 2) 0x00 0x0B (DLY_ms 1 reset_state))"
    by (rule sendCode_deterministic
        [OF k', THEN conjunct2, THEN conjunct2, THEN conjunct2, THEN mp, OF t])
  from k d nec t rc5 show ?thesis
    by (simp only: simp_thms)
qed

text \<open>
  C10. \<open>SON_sendByte\<close> emits the bits 0 to \<open>number - 1\<close> of the value, one burst each,
  when \<open>number\<close> is not 0, and 256 bits when \<open>number\<close> is 0 (the counter wraps around
  before it is tested). A telegram of \<open>SON_sendCode\<close> has, for every address, command and
  variant, the burst of the start frame and 7, 12, 15 or 20 bursts of bits: no call of
  \<open>SON_sendByte\<close> in it has the count 0.
\<close>

theorem SON_sendByte_count:
  "emitted s (SON_sendByte val number s) =
     concat (map (\<lambda>j. SON_bit_wave (bit val j))
       [0..<(if number = 0 then 256 else unat number)])
   \<and> bursts (emitted s (SON_sendByte val number s)) = (if number = 0 then 256 else unat number)
   \<and> bursts (emitted s (SON_telegram addr cmd bits s)) =
       1 + 7 + (if bits = 12 then 5 else if bits = 15 then 8 else if bits = 20 then 8 + 5 else 0)"
proof -
  have "bursts (SON_telegram_wave addr cmd bits) =
      1 + 7 + (if bits = 12 then 5 else if bits = 15 then 8 else if bits = 20 then 8 + 5 else 0)"
    using bursts_SON_bits [of "\<lambda>b. b" "SON_data_bits addr cmd bits"]
    by (simp add: SON_telegram_wave_def bursts_def SON_data_bits_def del: upt_Suc)
  then show ?thesis
    by (simp add: SON_sendByte_emit SON_telegram_emit bursts_SON_bits del: upt_Suc)
qed

theorem SON_sendByte_count_witness:
  "bursts (emitted reset_state (SON_sendByte 0x15 7 reset_state)) = 7
   \<and> bursts (emitted reset_state (SON_sendByte 0x15 0 reset_state)) = 256
   \<and> bursts (emitted reset_state (SON_telegram 0x01 0x15 20 reset_state)) = 21"
  using SON_sendByte_count [of reset_state "0x15" 7, THEN conjunct2, THEN conjunct1]
    SON_sendByte_count [of reset_state "0x15" 0, THEN conjunct2, THEN conjunct1]
    SON_sendByte_count [of reset_state _ _ "0x01" "0x15" 20, THEN conjunct2, THEN conjunct2]
  by simp

end
